theory Spec2Isabelle
  imports Main "HOL-Library.Sublist"
begin

section \<open>Data model (models.py and the fields of MyPlugin)\<close>

text \<open>
  \<^verbatim>\<open>Article\<close> (models.py, lines 6-41). Only \<^verbatim>\<open>id\<close>, \<^verbatim>\<open>title\<close>,
  \<^verbatim>\<open>html_url\<close> and \<^verbatim>\<open>body\<close> are read by main.py besides the timestamp used in
  the message header; the other fields are validated by pydantic and never read. The
  field \<^verbatim>\<open>id\<close> is named \<open>article_id\<close> here, since \<open>id\<close> is the identity
  function of HOL.
\<close>

record article =
  article_id :: int
  title :: string
  html_url :: string
  body :: string

text \<open>
  What \<^verbatim>\<open>client.get\<close>, \<^verbatim>\<open>raise_for_status\<close> and
  \<^verbatim>\<open>ArticleListResponse.model_validate\<close> (main.py, lines 147-150) can raise. A
  successful fetch yields \<^verbatim>\<open>data.articles\<close>, the only field of the listing that
  main.py reads.
\<close>

datatype fetch_error = NetworkError | HTTPStatusError | ValidationError

type_synonym web = "string \<Rightarrow> fetch_error + article list"

text \<open>
  The mutable fields of \<^verbatim>\<open>MyPlugin\<close> (main.py, lines 33-40).
  \<^verbatim>\<open>registered_groups\<close> is a Python dict, which keeps insertion order: an
  association list with distinct keys. The two \<open>saves\<close> fields record the effect of
  \<^verbatim>\<open>_save_seen_articles\<close> and \<^verbatim>\<open>_save_registered_groups\<close>: what each
  call hands to \<^verbatim>\<open>json.dump\<close>, oldest first. Whether the write reaches the disk is
  outside the plugin: a failure is logged and swallowed (lines 58-59, 76-77), so a call
  changes nothing else.
\<close>

record plugin =
  is_first_run :: bool
  seen_article_ids :: "int set"
  registered_groups :: "(string \<times> string) list"
  seen_saves :: "int set list"
  group_saves :: "(string \<times> string) list list"

definition bedrock_beta_news_api :: string where
  "bedrock_beta_news_api =
     ''https://feedback.minecraft.net/api/v2/help_center/en-us/sections/360001185332/articles.json?sort_by=created_at&sort_order=desc''"

definition bedrock_news_api :: string where
  "bedrock_news_api =
     ''https://feedback.minecraft.net/api/v2/help_center/en-us/sections/360001186971/articles.json?sort_by=created_at&sort_order=desc''"

definition feedback_base_url :: string where
  "feedback_base_url = ''https://feedback.minecraft.net''"

section \<open>The seen-set store\<close>

text \<open>\<^verbatim>\<open>_save_seen_articles\<close> (main.py, lines 53-59).\<close>

definition save_seen_articles :: "plugin \<Rightarrow> plugin" where
  "save_seen_articles s = s\<lparr>seen_saves := seen_saves s @ [seen_article_ids s]\<rparr>"

section \<open>The per-feed check\<close>

text \<open>
  The first-run loop of \<^verbatim>\<open>_fetch_articles\<close> (main.py, lines 157-158): every article
  of the page is added to the seen-set.
\<close>

fun mark_all_seen :: "article list \<Rightarrow> int set \<Rightarrow> int set" where
  "mark_all_seen [] seen = seen"
| "mark_all_seen (a # rest) seen = mark_all_seen rest (insert (article_id a) seen)"

text \<open>
  The normal-mode loop (main.py, lines 169-173), on the pair of \<^verbatim>\<open>new_articles\<close>
  and the seen-set: an article whose id is not in the seen-set is appended to
  \<^verbatim>\<open>new_articles\<close> and its id is added at once.
\<close>

fun filter_new ::
  "article list \<Rightarrow> string \<Rightarrow> (article \<times> string) list \<times> int set \<Rightarrow> (article \<times> string) list \<times> int set"
where
  "filter_new [] version_type (new_articles, seen) = (new_articles, seen)"
| "filter_new (a # rest) version_type (new_articles, seen) =
     (if article_id a \<notin> seen
      then filter_new rest version_type (new_articles @ [(a, version_type)], insert (article_id a) seen)
      else filter_new rest version_type (new_articles, seen))"

text \<open>
  \<^verbatim>\<open>_fetch_articles\<close> (main.py, lines 144-183). \<open>fetch api_url\<close> is the outcome of
  lines 147-150; an exception there is caught at line 181 and the result is the empty
  list, with the plugin unchanged. Nothing after line 150 can raise: the loops add to
  a set and append to a list, and \<^verbatim>\<open>_save_seen_articles\<close> catches its own errors.
\<close>

definition fetch_articles ::
  "web \<Rightarrow> string \<Rightarrow> string \<Rightarrow> plugin \<Rightarrow> (article \<times> string) list \<times> plugin"
where
  "fetch_articles fetch api_url version_type s =
     (case fetch api_url of
        Inl e \<Rightarrow> ([], s)
      | Inr articles \<Rightarrow>
          if is_first_run s then
            (let s1 = s\<lparr>seen_article_ids := mark_all_seen articles (seen_article_ids s)\<rparr>;
                 new_articles = (case articles of [] \<Rightarrow> [] | a # _ \<Rightarrow> [(a, version_type)])
             in (new_articles, save_seen_articles s1))
          else
            (let (new_articles, seen) = filter_new articles version_type ([], seen_article_ids s);
                 s1 = s\<lparr>seen_article_ids := seen\<rparr>
             in (new_articles, if new_articles \<noteq> [] then save_seen_articles s1 else s1)))"

section \<open>The check cycle\<close>

text \<open>
  The boolean options of the plugin's configuration, read with
  \<^verbatim>\<open>self.config.get(key, default)\<close>.
\<close>

type_synonym config = "string \<rightharpoonup> bool"

definition config_get :: "config \<Rightarrow> string \<Rightarrow> bool \<Rightarrow> bool" where
  "config_get cfg key dflt = (case cfg key of None \<Rightarrow> dflt | Some v \<Rightarrow> v)"

text \<open>
  \<^verbatim>\<open>_check_updates\<close>, lines 118-128: the beta feed, then the release feed, each
  if enabled; the new articles of both are collected in this order.
\<close>

definition check_feeds :: "config \<Rightarrow> web \<Rightarrow> plugin \<Rightarrow> (article \<times> string) list \<times> plugin" where
  "check_feeds cfg fetch s =
     (let (beta_articles, s1) =
            (if config_get cfg ''enable_beta_monitor'' True
             then fetch_articles fetch bedrock_beta_news_api ''Beta'' s
             else ([], s));
          (release_articles, s2) =
            (if config_get cfg ''enable_release_monitor'' True
             then fetch_articles fetch bedrock_news_api ''Release'' s1
             else ([], s1))
      in (beta_articles @ release_articles, s2))"

text \<open>
  \<^verbatim>\<open>_check_updates\<close> (main.py, lines 109-142): the feeds, then lines 131-133, which
  clear the first-run flag if it is set. The list returned is \<^verbatim>\<open>new_articles\<close>, which
  line 137 hands to \<^verbatim>\<open>_process_new_articles\<close> when it is not empty; rendering and
  delivery change no field of the plugin.
\<close>

definition check_updates :: "config \<Rightarrow> web \<Rightarrow> plugin \<Rightarrow> (article \<times> string) list \<times> plugin" where
  "check_updates cfg fetch s =
     (let (new_articles, s2) = check_feeds cfg fetch s;
          s3 = (if is_first_run s2 then s2\<lparr>is_first_run := False\<rparr> else s2)
      in (new_articles, s3))"

section \<open>Start-up\<close>

text \<open>
  A JSON state file as \<^verbatim>\<open>__init__\<close> finds it: missing, present but failing in
  \<^verbatim>\<open>open\<close> or \<^verbatim>\<open>json.load\<close> (or in what is done with the document), or
  loaded. For the seen-ids file the loaded value is \<^verbatim>\<open>data.get('seen_ids')\<close>:
  \<open>None\<close> when the document has no such key.
\<close>

datatype 'a json_file = Missing | Unreadable | Loaded 'a

definition file_exists :: "'a json_file \<Rightarrow> bool" where
  "file_exists f = (case f of Missing \<Rightarrow> False | Unreadable \<Rightarrow> True | Loaded _ \<Rightarrow> True)"

text \<open>\<^verbatim>\<open>_load_seen_articles\<close> (main.py, lines 42-51).\<close>

definition load_seen_articles :: "int list option json_file \<Rightarrow> int set" where
  "load_seen_articles f =
     (if file_exists f then
        (case f of
           Loaded seen_ids \<Rightarrow> set (case seen_ids of None \<Rightarrow> [] | Some ids \<Rightarrow> ids)
         | Unreadable \<Rightarrow> {}
         | Missing \<Rightarrow> {})
      else {})"

text \<open>\<^verbatim>\<open>_load_registered_groups\<close> (main.py, lines 61-69).\<close>

definition load_registered_groups :: "(string \<times> string) list json_file \<Rightarrow> (string \<times> string) list" where
  "load_registered_groups f =
     (if file_exists f then
        (case f of Loaded groups \<Rightarrow> groups | Unreadable \<Rightarrow> [] | Missing \<Rightarrow> [])
      else [])"

text \<open>\<^verbatim>\<open>__init__\<close> (main.py, lines 33-40).\<close>

definition plugin_init ::
  "int list option json_file \<Rightarrow> (string \<times> string) list json_file \<Rightarrow> plugin" where
  "plugin_init seen_articles_file registered_groups_file =
     \<lparr>is_first_run = (\<not> file_exists seen_articles_file),
      seen_article_ids = load_seen_articles seen_articles_file,
      registered_groups = load_registered_groups registered_groups_file,
      seen_saves = [],
      group_saves = []\<rparr>"

section \<open>The destination registry\<close>

text \<open>Python's \<^verbatim>\<open>s.startswith(p)\<close>, \<^verbatim>\<open>sub in s\<close> and \<^verbatim>\<open>s.split(sep)\<close>.\<close>

fun startswith :: "string \<Rightarrow> string \<Rightarrow> bool" where
  "startswith s [] = True"
| "startswith [] (p # ps) = False"
| "startswith (c # cs) (p # ps) = (c = p \<and> startswith cs ps)"

fun str_in :: "string \<Rightarrow> string \<Rightarrow> bool" where
  "str_in sub [] = (sub = [])"
| "str_in sub (c # cs) = (startswith (c # cs) sub \<or> str_in sub cs)"

fun str_split :: "char \<Rightarrow> string \<Rightarrow> string list" where
  "str_split sep [] = [[]]"
| "str_split sep (c # cs) =
     (if c = sep then [] # str_split sep cs
      else (case str_split sep cs of [] \<Rightarrow> [[c]] | p # ps \<Rightarrow> (c # p) # ps))"

text \<open>
  \<^verbatim>\<open>d[k] = v\<close> on a dict: an existing key keeps its place and takes the new value, a
  new key goes last. \<^verbatim>\<open>del d[k]\<close> removes the entry of \<open>k\<close>; the plugin only
  deletes a key it has just read from the dict, so the \<^verbatim>\<open>KeyError\<close> of a missing key
  does not arise.
\<close>

fun dict_set :: "('k \<times> 'v) list \<Rightarrow> 'k \<Rightarrow> 'v \<Rightarrow> ('k \<times> 'v) list" where
  "dict_set [] k v = [(k, v)]"
| "dict_set ((k', v') # d) k v =
     (if k' = k then (k, v) # d else (k', v') # dict_set d k v)"

fun dict_del :: "('k \<times> 'v) list \<Rightarrow> 'k \<Rightarrow> ('k \<times> 'v) list" where
  "dict_del [] k = []"
| "dict_del ((k', v') # d) k = (if k' = k then d else (k', v') # dict_del d k)"

text \<open>\<^verbatim>\<open>_save_registered_groups\<close> (main.py, lines 71-77).\<close>

definition save_registered_groups :: "plugin \<Rightarrow> plugin" where
  "save_registered_groups s = s\<lparr>group_saves := group_saves s @ [registered_groups s]\<rparr>"

text \<open>
  What the handlers read of an \<^verbatim>\<open>AstrMessageEvent\<close>: its
  \<^verbatim>\<open>unified_msg_origin\<close>, and \<^verbatim>\<open>str(event.group_id)\<close> when the event has such
  an attribute.
\<close>

record event =
  unified_msg_origin :: string
  group_id :: "string option"

datatype reply = RegisterOk string | UnregisterOk | NotRegistered

text \<open>The key under which \<^verbatim>\<open>mcbe_register\<close> files the caller (lines 445-458).\<close>

definition register_key :: "event \<Rightarrow> string" where
  "register_key ev =
     (case group_id ev of
        Some g \<Rightarrow> g
      | None \<Rightarrow>
          if str_in ''group'' (unified_msg_origin ev) then
            (let parts = str_split CHR '':'' (unified_msg_origin ev)
             in if length parts \<ge> 3 then parts ! 2 else unified_msg_origin ev)
          else unified_msg_origin ev)"

text \<open>\<^verbatim>\<open>mcbe_register\<close> (main.py, lines 436-469).\<close>

definition mcbe_register :: "event \<Rightarrow> plugin \<Rightarrow> reply \<times> plugin" where
  "mcbe_register ev s =
     (let key = register_key ev;
          s1 = s\<lparr>registered_groups := dict_set (registered_groups s) key (unified_msg_origin ev)\<rparr>
      in (RegisterOk key, save_registered_groups s1))"

text \<open>
  The loop of \<^verbatim>\<open>mcbe_unregister\<close> (lines 480-487) over the snapshot
  \<^verbatim>\<open>list(self.registered_groups.items())\<close>: the first entry whose saved origin is the
  caller's is deleted and saved, and the loop breaks. The boolean is \<^verbatim>\<open>removed\<close>.
\<close>

fun unregister_scan :: "(string \<times> string) list \<Rightarrow> string \<Rightarrow> plugin \<Rightarrow> bool \<times> plugin" where
  "unregister_scan [] origin s = (False, s)"
| "unregister_scan ((key, saved_origin) # rest) origin s =
     (if saved_origin = origin
      then (True, save_registered_groups (s\<lparr>registered_groups := dict_del (registered_groups s) key\<rparr>))
      else unregister_scan rest origin s)"

text \<open>\<^verbatim>\<open>mcbe_unregister\<close> (main.py, lines 471-494).\<close>

definition mcbe_unregister :: "event \<Rightarrow> plugin \<Rightarrow> reply \<times> plugin" where
  "mcbe_unregister ev s =
     (let (removed, s1) = unregister_scan (registered_groups s) (unified_msg_origin ev) s
      in (if removed then UnregisterOk else NotRegistered, s1))"

section \<open>The life of the process\<close>

text \<open>
  Everything that runs on the plugin after \<^verbatim>\<open>__init__\<close>: a check cycle (the
  scheduled job and \<^verbatim>\<open>/mcbe_check\<close> both call \<^verbatim>\<open>_check_updates\<close>), the two
  registry commands, and the commands that only read (\<^verbatim>\<open>/mcbe_news\<close>,
  \<^verbatim>\<open>/mcbe_status\<close>, \<^verbatim>\<open>/mcbe_help\<close>).
\<close>

datatype operation =
  Check config web
| Register event
| Unregister event
| ReadOnly

fun step :: "operation \<Rightarrow> plugin \<Rightarrow> plugin" where
  "step (Check cfg fetch) s = snd (check_updates cfg fetch s)"
| "step (Register ev) s = snd (mcbe_register ev s)"
| "step (Unregister ev) s = snd (mcbe_unregister ev s)"
| "step ReadOnly s = s"

definition run :: "operation list \<Rightarrow> plugin \<Rightarrow> plugin" where
  "run ops s = fold step ops s"

section \<open>Image extraction\<close>

text \<open>
  The parsed document that \<^verbatim>\<open>_extract_content_with_images\<close> receives: a tree of tags
  (name, attribute dict, children) and strings. \<open>descendants\<close> is the document order of
  BeautifulSoup; \<^verbatim>\<open>find_all(names)\<close> keeps the tags of these names,
  \<^verbatim>\<open>find(name)\<close> is the first of them, and \<^verbatim>\<open>tag.get(key, default)\<close> reads an
  attribute.
\<close>

datatype node = Tag string "string \<rightharpoonup> string" "node list" | NavigableString string

fun descendants :: "node \<Rightarrow> node list" where
  "descendants (Tag name attrs contents) = concat (map (\<lambda>c. c # descendants c) contents)"
| "descendants (NavigableString s) = []"

definition is_named :: "string list \<Rightarrow> node \<Rightarrow> bool" where
  "is_named names element =
     (case element of Tag name attrs contents \<Rightarrow> name \<in> set names | NavigableString s \<Rightarrow> False)"

definition find_all :: "string list \<Rightarrow> node \<Rightarrow> node list" where
  "find_all names root = filter (is_named names) (descendants root)"

definition find_first :: "string \<Rightarrow> node \<Rightarrow> node option" where
  "find_first name root = (case find_all [name] root of [] \<Rightarrow> None | element # _ \<Rightarrow> Some element)"

definition get_attr :: "node \<Rightarrow> string \<Rightarrow> string \<Rightarrow> string" where
  "get_attr element key dflt =
     (case element of
        Tag name attrs contents \<Rightarrow> (case attrs key of None \<Rightarrow> dflt | Some v \<Rightarrow> v)
      | NavigableString s \<Rightarrow> dflt)"

text \<open>
  The message components the extraction emits. \<^verbatim>\<open>Comp.Image.fromURL\<close> belongs to the
  host and is not part of the repository: it is taken as a parameter, the set of URLs
  it accepts; on any other URL it raises.
\<close>

datatype component = Image string | Plain string

definition image_fromURL :: "(string \<Rightarrow> bool) \<Rightarrow> string \<Rightarrow> component option" where
  "image_fromURL accepts url = (if accepts url then Some (Image url) else None)"

record extraction =
  components :: "component list"
  image_count :: nat
  processed_imgs :: "string set"

definition max_images :: nat where
  "max_images = 10"

text \<open>Lines 272-273 and 285-286: a source that starts with a slash gets the base URL in front.\<close>

definition resolve_src :: "string \<Rightarrow> string" where
  "resolve_src src = (if startswith src ''/'' then feedback_base_url @ src else src)"

text \<open>
  Lines 272-279, and the same again at lines 285-292: the image and a newline are
  appended, the counter goes up and the rewritten source is recorded. When
  \<^verbatim>\<open>fromURL\<close> raises, line 294 catches it and the loop goes on with nothing changed.
\<close>

definition append_image :: "(string \<Rightarrow> bool) \<Rightarrow> string \<Rightarrow> extraction \<Rightarrow> extraction" where
  "append_image accepts src0 st =
     (let src = resolve_src src0 in
      case image_fromURL accepts src of
        None \<Rightarrow> st
      | Some img \<Rightarrow>
          st\<lparr>components := components st @ [img, Plain ''\<newline>''],
             image_count := image_count st + 1,
             processed_imgs := insert src (processed_imgs st)\<rparr>)"

text \<open>The body of the loop (main.py, lines 265-296) for one element.\<close>

definition process_element :: "(string \<Rightarrow> bool) \<Rightarrow> node \<Rightarrow> extraction \<Rightarrow> extraction" where
  "process_element accepts element st =
     (case element of
        NavigableString s \<Rightarrow> st
      | Tag name attrs contents \<Rightarrow>
          if name = ''figure'' then
            (case find_first ''img'' element of
               None \<Rightarrow> st
             | Some img \<Rightarrow>
                 if image_count st < max_images then
                   (let src = get_attr img ''src'' []
                    in if src \<noteq> [] \<and> src \<notin> processed_imgs st
                       then append_image accepts src st else st)
                 else st)
          else if name = ''img'' then
            (let src = get_attr element ''src'' []
             in if src \<noteq> [] \<and> src \<notin> processed_imgs st \<and> image_count st < max_images
                then append_image accepts src st else st)
          else st)"

text \<open>\<^verbatim>\<open>_extract_content_with_images\<close> (main.py, lines 256-303).\<close>

definition extract_content_with_images :: "(string \<Rightarrow> bool) \<Rightarrow> node \<Rightarrow> component list" where
  "extract_content_with_images accepts soup =
     components
       (fold (process_element accepts) (find_all [''figure'', ''img''] soup)
          \<lparr>components = [], image_count = 0, processed_imgs = {}\<rparr>)"

text \<open>
  The vocabulary of the claims about images. The image sources of a body, in document
  order: the \<^verbatim>\<open>src\<close> of the first \<^verbatim>\<open>img\<close> inside each \<^verbatim>\<open>figure\<close> and of each
  \<^verbatim>\<open>img\<close>. A source is usable when it is not empty and the host accepts its
  rewritten URL. The URLs of the images of a component list, in order.
\<close>

definition candidate_src :: "node \<Rightarrow> string option" where
  "candidate_src element =
     (case element of
        NavigableString s \<Rightarrow> None
      | Tag name attrs contents \<Rightarrow>
          if name = ''figure'' then
            (case find_first ''img'' element of
               None \<Rightarrow> None
             | Some img \<Rightarrow> Some (get_attr img ''src'' []))
          else if name = ''img'' then Some (get_attr element ''src'' [])
          else None)"

definition image_sources :: "node \<Rightarrow> string list" where
  "image_sources soup = List.map_filter candidate_src (find_all [''figure'', ''img''] soup)"


definition image_urls :: "component list \<Rightarrow> string list" where
  "image_urls cs = concat (map (\<lambda>c. case c of Image url \<Rightarrow> [url] | Plain s \<Rightarrow> []) cs)"

text \<open>One step of the loop in terms of the source it considers.\<close>

definition offer :: "(string \<Rightarrow> bool) \<Rightarrow> string \<Rightarrow> extraction \<Rightarrow> extraction" where
  "offer accepts src st =
     (if src \<noteq> [] \<and> src \<notin> processed_imgs st \<and> image_count st < max_images
      then append_image accepts src st else st)"

text \<open>
  The invariant of the loop: the counter is within the cap and counts the images
  emitted, \<open>processed_imgs\<close> holds exactly their URLs, and none of these starts with a
  slash.
\<close>

definition extraction_ok :: "extraction \<Rightarrow> bool" where
  "extraction_ok st =
     (image_count st \<le> max_images
      \<and> length (image_urls (components st)) = image_count st
      \<and> processed_imgs st = set (image_urls (components st))
      \<and> list_all (\<lambda>url. \<not> startswith url ''/'') (image_urls (components st)))"


text \<open>A list without the repetitions of its elements: each element where it first occurs.\<close>

fun first_occurrences :: "'a list \<Rightarrow> 'a list" where
  "first_occurrences [] = []"
| "first_occurrences (x # xs) = x # first_occurrences (removeAll x xs)"


section \<open>Properties of the per-feed check\<close>

lemma mark_all_seen_eq: "mark_all_seen articles seen = seen \<union> article_id ` set articles"
  by (induction articles arbitrary: seen) auto

lemma filter_new_seen:
  "snd (filter_new articles vt (acc, seen)) = seen \<union> article_id ` set articles"
  by (induction articles arbitrary: acc seen) auto

lemma filter_new_distinct:
  "distinct (map article_id articles) \<Longrightarrow>
   fst (filter_new articles vt (acc, seen)) =
     acc @ map (\<lambda>a. (a, vt)) (filter (\<lambda>a. article_id a \<notin> seen) articles)"
proof (induction articles arbitrary: acc seen)
  case Nil
  then show ?case by simp
next
  case (Cons a rest)
  have same: "filter (\<lambda>b. article_id b \<noteq> article_id a \<and> article_id b \<notin> seen) rest =
              filter (\<lambda>b. article_id b \<notin> seen) rest"
  proof (rule filter_cong [OF refl])
    fix b assume "b \<in> set rest"
    with Cons.prems have "article_id b \<noteq> article_id a"
      by (metis distinct.simps(2) image_eqI list.simps(9) set_map)
    then show "(article_id b \<noteq> article_id a \<and> article_id b \<notin> seen) = (article_id b \<notin> seen)"
      by simp
  qed
  from Cons show ?case by (simp add: same)
qed

lemma count_list_map_inj:
  "inj f \<Longrightarrow> count_list (map f xs) (f x) = count_list xs x"
  by (induction xs) (auto dest: injD)

lemma count_list_distinct_filter:
  "distinct xs \<Longrightarrow> x \<in> set xs \<Longrightarrow> P x \<Longrightarrow> count_list (filter P xs) x = 1"
  by (induction xs) (auto simp: count_list_0_iff)

text \<open>
  C1. A normal-mode check of a page whose articles have distinct ids returns, in page
  order, exactly the articles whose id is not in the prior seen-set, each of them once,
  and the seen-set afterwards is the prior one together with every id of the page.
\<close>

theorem C1_normal_mode_new_articles:
  assumes "\<not> is_first_run s"
    and "fetch api_url = Inr articles"
    and "distinct (map article_id articles)"
  shows "fst (fetch_articles fetch api_url vt s) =
           map (\<lambda>a. (a, vt)) (filter (\<lambda>a. article_id a \<notin> seen_article_ids s) articles)
       \<and> (\<forall>a \<in> set articles. article_id a \<notin> seen_article_ids s \<longrightarrow>
             count_list (fst (fetch_articles fetch api_url vt s)) (a, vt) = 1)
       \<and> seen_article_ids (snd (fetch_articles fetch api_url vt s)) =
           seen_article_ids s \<union> article_id ` set articles"
proof -
  let ?keep = "filter (\<lambda>a. article_id a \<notin> seen_article_ids s) articles"
  have new: "fst (fetch_articles fetch api_url vt s) = map (\<lambda>a. (a, vt)) ?keep"
    using assms filter_new_distinct [of articles vt "[]" "seen_article_ids s"]
    by (auto simp: fetch_articles_def Let_def split: prod.splits)
  have dist: "distinct articles"
    using assms(3) by (simp add: distinct_map)
  have once: "count_list (map (\<lambda>a. (a, vt)) ?keep) (a, vt) = 1"
    if "a \<in> set articles" "article_id a \<notin> seen_article_ids s" for a
  proof -
    have "count_list (map (\<lambda>a. (a, vt)) ?keep) (a, vt) = count_list ?keep a"
      by (rule count_list_map_inj [of "\<lambda>a. (a, vt)"]) (simp add: inj_def)
    also have "\<dots> = 1"
      using dist that by (rule count_list_distinct_filter)
    finally show ?thesis .
  qed
  have seen: "seen_article_ids (snd (fetch_articles fetch api_url vt s)) =
                seen_article_ids s \<union> article_id ` set articles"
    using assms(1,2) filter_new_seen [of articles vt "[]" "seen_article_ids s"]
    by (auto simp: fetch_articles_def save_seen_articles_def Let_def split: prod.splits)
  from new once seen show ?thesis by simp
qed

text \<open>
  The example of the specification: the page \<open>[id 5, id 4]\<close> checked in normal mode
  against the seen-set \<open>{4}\<close> gives the new list \<open>[id 5]\<close> and the seen-set
  \<open>{4, 5}\<close>.
\<close>

theorem C1_normal_mode_example:
  "\<not> is_first_run \<lparr>is_first_run = False, seen_article_ids = {4}, registered_groups = [],
        seen_saves = [], group_saves = []\<rparr>
   \<and> distinct (map article_id
        [\<lparr>article_id = 5, title = ''five'', html_url = ''u5'', body = ''b5''\<rparr>,
         \<lparr>article_id = 4, title = ''four'', html_url = ''u4'', body = ''b4''\<rparr>])
   \<and> fst (fetch_articles
        (\<lambda>url. Inr [\<lparr>article_id = 5, title = ''five'', html_url = ''u5'', body = ''b5''\<rparr>,
                    \<lparr>article_id = 4, title = ''four'', html_url = ''u4'', body = ''b4''\<rparr>])
        bedrock_news_api ''Release''
        \<lparr>is_first_run = False, seen_article_ids = {4}, registered_groups = [],
         seen_saves = [], group_saves = []\<rparr>)
      = [(\<lparr>article_id = 5, title = ''five'', html_url = ''u5'', body = ''b5''\<rparr>, ''Release'')]
   \<and> seen_article_ids (snd (fetch_articles
        (\<lambda>url. Inr [\<lparr>article_id = 5, title = ''five'', html_url = ''u5'', body = ''b5''\<rparr>,
                    \<lparr>article_id = 4, title = ''four'', html_url = ''u4'', body = ''b4''\<rparr>])
        bedrock_news_api ''Release''
        \<lparr>is_first_run = False, seen_article_ids = {4}, registered_groups = [],
         seen_saves = [], group_saves = []\<rparr>))
      = {4, 5}"
  using C1_normal_mode_new_articles
    [of "\<lparr>is_first_run = False, seen_article_ids = {4}, registered_groups = [],
          seen_saves = [], group_saves = []\<rparr>"
        "\<lambda>url. Inr [\<lparr>article_id = 5, title = ''five'', html_url = ''u5'', body = ''b5''\<rparr>,
                    \<lparr>article_id = 4, title = ''four'', html_url = ''u4'', body = ''b4''\<rparr>]"
        bedrock_news_api
        "[\<lparr>article_id = 5, title = ''five'', html_url = ''u5'', body = ''b5''\<rparr>,
          \<lparr>article_id = 4, title = ''four'', html_url = ''u4'', body = ''b4''\<rparr>]"
        "''Release''"]
  by auto

text \<open>
  C2. A first-run check of a non-empty page reports exactly one article, the first of
  the page, and afterwards the id of every article of the page is in the seen-set.
\<close>

theorem C2_first_run_seeds:
  assumes "is_first_run s"
    and "fetch api_url = Inr (a # rest)"
  shows "fst (fetch_articles fetch api_url vt s) = [(a, vt)]
       \<and> (\<forall>b \<in> set (a # rest).
             article_id b \<in> seen_article_ids (snd (fetch_articles fetch api_url vt s)))"
  using assms
  by (simp add: fetch_articles_def save_seen_articles_def mark_all_seen_eq Let_def)

text \<open>A fresh plugin and a page of three articles: only the first is reported, all three are seen.\<close>

theorem C2_first_run_example:
  "is_first_run \<lparr>is_first_run = True, seen_article_ids = {}, registered_groups = [],
        seen_saves = [], group_saves = []\<rparr>
   \<and> fst (fetch_articles
        (\<lambda>url. Inr [\<lparr>article_id = 9, title = ''nine'', html_url = ''u9'', body = ''b9''\<rparr>,
                    \<lparr>article_id = 7, title = ''seven'', html_url = ''u7'', body = ''b7''\<rparr>,
                    \<lparr>article_id = 3, title = ''three'', html_url = ''u3'', body = ''b3''\<rparr>])
        bedrock_beta_news_api ''Beta''
        \<lparr>is_first_run = True, seen_article_ids = {}, registered_groups = [],
         seen_saves = [], group_saves = []\<rparr>)
      = [(\<lparr>article_id = 9, title = ''nine'', html_url = ''u9'', body = ''b9''\<rparr>, ''Beta'')]
   \<and> {9, 7, 3} \<subseteq> seen_article_ids (snd (fetch_articles
        (\<lambda>url. Inr [\<lparr>article_id = 9, title = ''nine'', html_url = ''u9'', body = ''b9''\<rparr>,
                    \<lparr>article_id = 7, title = ''seven'', html_url = ''u7'', body = ''b7''\<rparr>,
                    \<lparr>article_id = 3, title = ''three'', html_url = ''u3'', body = ''b3''\<rparr>])
        bedrock_beta_news_api ''Beta''
        \<lparr>is_first_run = True, seen_article_ids = {}, registered_groups = [],
         seen_saves = [], group_saves = []\<rparr>))"
  using C2_first_run_seeds
    [of "\<lparr>is_first_run = True, seen_article_ids = {}, registered_groups = [],
          seen_saves = [], group_saves = []\<rparr>"
        "\<lambda>url. Inr [\<lparr>article_id = 9, title = ''nine'', html_url = ''u9'', body = ''b9''\<rparr>,
                    \<lparr>article_id = 7, title = ''seven'', html_url = ''u7'', body = ''b7''\<rparr>,
                    \<lparr>article_id = 3, title = ''three'', html_url = ''u3'', body = ''b3''\<rparr>]"
        bedrock_beta_news_api
        "\<lparr>article_id = 9, title = ''nine'', html_url = ''u9'', body = ''b9''\<rparr>"
        "[\<lparr>article_id = 7, title = ''seven'', html_url = ''u7'', body = ''b7''\<rparr>,
          \<lparr>article_id = 3, title = ''three'', html_url = ''u3'', body = ''b3''\<rparr>]"
        "''Beta''"]
  by simp

lemma fetch_articles_flag:
  "is_first_run (snd (fetch_articles fetch api_url vt s)) = is_first_run s"
  by (auto simp: fetch_articles_def save_seen_articles_def Let_def split: sum.splits prod.splits)

lemma check_feeds_flag:
  "is_first_run (snd (check_feeds cfg fetch s)) = is_first_run s"
  by (simp add: check_feeds_def Let_def fetch_articles_flag split: prod.splits)
     (metis fetch_articles_flag snd_conv)

lemma check_updates_flag: "\<not> is_first_run (snd (check_updates cfg fetch s))"
  by (simp add: check_updates_def Let_def split: prod.splits)

lemma unregister_scan_flag:
  "is_first_run (snd (unregister_scan snap origin s)) = is_first_run s"
  by (induction snap origin s rule: unregister_scan.induct) (auto simp: save_registered_groups_def)

lemma step_flag: "\<not> is_first_run s \<Longrightarrow> \<not> is_first_run (step op s)"
  by (cases op)
     (auto simp: check_updates_flag mcbe_register_def mcbe_unregister_def
        save_registered_groups_def Let_def unregister_scan_flag split: prod.splits
        dest: arg_cong [where f = "\<lambda>p. is_first_run (snd p)"])

lemma run_flag: "\<not> is_first_run s \<Longrightarrow> \<not> is_first_run (run ops s)"
  unfolding run_def by (induction ops arbitrary: s) (auto simp: step_flag)

text \<open>
  C3. The first-run flag is cleared at one place of the cycle, after both feeds: a
  per-feed check leaves the flag as it found it, so does the pass over both feeds
  whatever is enabled and whatever the fetches return, and the state after the cycle is
  the state after the feeds with the flag set to false. Once the flag is false, no
  sequence of operations of the plugin makes it true again.
\<close>

theorem C3_first_run_flag:
  "is_first_run (snd (fetch_articles fetch api_url vt s)) = is_first_run s
   \<and> is_first_run (snd (check_feeds cfg fetch s)) = is_first_run s
   \<and> snd (check_updates cfg fetch s) = (snd (check_feeds cfg fetch s))\<lparr>is_first_run := False\<rparr>
   \<and> \<not> is_first_run (snd (check_updates cfg fetch s))
   \<and> (\<not> is_first_run s \<longrightarrow> \<not> is_first_run (run ops s))"
proof -
  have "snd (check_updates cfg fetch s) = (snd (check_feeds cfg fetch s))\<lparr>is_first_run := False\<rparr>"
    by (auto simp: check_updates_def Let_def split: prod.splits)
  then show ?thesis
    using fetch_articles_flag check_feeds_flag check_updates_flag run_flag by blast
qed

text \<open>
  A fresh deployment (no seen-ids file) whose first cycle fails on both feeds: the flag
  is false afterwards and stays false through a further cycle and the registry commands.
\<close>

theorem C3_first_run_flag_example:
  "\<not> is_first_run (snd (check_updates Map.empty (\<lambda>url. Inl NetworkError) (plugin_init Missing Missing)))
   \<and> \<not> is_first_run
        (run [Check Map.empty (\<lambda>url. Inr []),
              Register \<lparr>unified_msg_origin = ''a:group:1'', group_id = None\<rparr>,
              Unregister \<lparr>unified_msg_origin = ''a:group:1'', group_id = None\<rparr>,
              ReadOnly]
           (snd (check_updates Map.empty (\<lambda>url. Inl NetworkError) (plugin_init Missing Missing))))"
  using C3_first_run_flag
    [of "\<lambda>url. Inl NetworkError" bedrock_news_api "''Release''"
        "snd (check_updates Map.empty (\<lambda>url. Inl NetworkError) (plugin_init Missing Missing))"
        Map.empty
        "[Check Map.empty (\<lambda>url. Inr []),
          Register \<lparr>unified_msg_origin = ''a:group:1'', group_id = None\<rparr>,
          Unregister \<lparr>unified_msg_origin = ''a:group:1'', group_id = None\<rparr>,
          ReadOnly]"]
  by (simp add: check_updates_def check_feeds_def config_get_def fetch_articles_def plugin_init_def
      file_exists_def)

lemma filter_new_acc:
  "\<exists>ys. fst (filter_new articles vt (acc, seen)) = acc @ ys
        \<and> (ys = [] \<longleftrightarrow> article_id ` set articles \<subseteq> seen)"
proof (induction articles arbitrary: acc seen)
  case Nil
  then show ?case by simp
next
  case (Cons a rest)
  show ?case
  proof (cases "article_id a \<in> seen")
    case True
    with Cons.IH [of acc seen] show ?thesis by simp
  next
    case False
    from Cons.IH [of "acc @ [(a, vt)]" "insert (article_id a) seen"]
    obtain ys where "fst (filter_new rest vt (acc @ [(a, vt)], insert (article_id a) seen))
                       = (acc @ [(a, vt)]) @ ys"
      by blast
    with False show ?thesis by simp
  qed
qed

lemma filter_new_empty_iff:
  "fst (filter_new articles vt ([], seen)) = [] \<longleftrightarrow> article_id ` set articles \<subseteq> seen"
  using filter_new_acc [of articles vt "[]" seen] by auto

lemma fetch_articles_failed: "fetch api_url = Inl e \<Longrightarrow> fetch_articles fetch api_url vt s = ([], s)"
  by (simp add: fetch_articles_def)

lemma fetch_articles_normal:
  "\<not> is_first_run s \<Longrightarrow> fetch api_url = Inr articles \<Longrightarrow>
   fetch_articles fetch api_url vt s =
     (let new_articles = fst (filter_new articles vt ([], seen_article_ids s));
          s1 = s\<lparr>seen_article_ids := seen_article_ids s \<union> article_id ` set articles\<rparr>
      in (new_articles, if new_articles \<noteq> [] then save_seen_articles s1 else s1))"
proof -
  assume normal: "\<not> is_first_run s" and page: "fetch api_url = Inr articles"
  obtain new_articles seen where loop: "filter_new articles vt ([], seen_article_ids s) = (new_articles, seen)"
    by (cases "filter_new articles vt ([], seen_article_ids s)") simp
  with filter_new_seen [of articles vt "[]" "seen_article_ids s"]
  have "seen = seen_article_ids s \<union> article_id ` set articles" by simp
  with normal page loop show ?thesis
    by (simp add: fetch_articles_def Let_def)
qed

lemma fetch_articles_first:
  "is_first_run s \<Longrightarrow> fetch api_url = Inr articles \<Longrightarrow>
   fetch_articles fetch api_url vt s =
     ((case articles of [] \<Rightarrow> [] | a # _ \<Rightarrow> [(a, vt)]),
      save_seen_articles (s\<lparr>seen_article_ids := seen_article_ids s \<union> article_id ` set articles\<rparr>))"
  by (simp add: fetch_articles_def Let_def mark_all_seen_eq)

lemma fetch_articles_seen_mono:
  "seen_article_ids s \<subseteq> seen_article_ids (snd (fetch_articles fetch api_url vt s))"
proof (cases "fetch api_url")
  case (Inl e)
  then show ?thesis by (simp add: fetch_articles_failed)
next
  case (Inr articles)
  then show ?thesis
    by (cases "is_first_run s")
       (auto simp: fetch_articles_first fetch_articles_normal save_seen_articles_def Let_def)
qed

lemma fetch_articles_covers:
  "fetch api_url = Inr articles \<Longrightarrow>
   article_id ` set articles \<subseteq> seen_article_ids (snd (fetch_articles fetch api_url vt s))"
  by (cases "is_first_run s")
     (auto simp: fetch_articles_first fetch_articles_normal save_seen_articles_def Let_def)

lemma fetch_articles_nothing_new:
  assumes "\<not> is_first_run s"
    and "\<And>articles. fetch api_url = Inr articles \<Longrightarrow> article_id ` set articles \<subseteq> seen_article_ids s"
  shows "fetch_articles fetch api_url vt s = ([], s)"
proof (cases "fetch api_url")
  case (Inl e)
  then show ?thesis by (simp add: fetch_articles_failed)
next
  case (Inr articles)
  with assms(2) have sub: "article_id ` set articles \<subseteq> seen_article_ids s" by simp
  then have "fst (filter_new articles vt ([], seen_article_ids s)) = []"
    by (simp add: filter_new_empty_iff)
  moreover from sub have "seen_article_ids s \<union> article_id ` set articles = seen_article_ids s"
    by auto
  ultimately show ?thesis
    using assms(1) Inr by (simp add: fetch_articles_normal)
qed

text \<open>
  C6, as amended. What a per-feed check hands to the persist operation: nothing when
  the fetch fails; in normal mode the new seen-set, once, when the check added an id to
  it, and nothing otherwise; in first-run mode the seen-set, once, after every
  successful fetch, whether or not an id was added.
\<close>

theorem C6_persist_after_check:
  "seen_saves (snd (fetch_articles fetch api_url vt s)) =
     seen_saves s @
       (case fetch api_url of
          Inl e \<Rightarrow> []
        | Inr articles \<Rightarrow>
            if is_first_run s then [seen_article_ids (snd (fetch_articles fetch api_url vt s))]
            else if seen_article_ids (snd (fetch_articles fetch api_url vt s)) = seen_article_ids s
            then []
            else [seen_article_ids (snd (fetch_articles fetch api_url vt s))])"
proof (cases "fetch api_url")
  case (Inl e)
  then show ?thesis by (simp add: fetch_articles_failed)
next
  case (Inr articles)
  show ?thesis
  proof (cases "is_first_run s")
    case True
    with Inr show ?thesis
      by (simp add: fetch_articles_first save_seen_articles_def)
  next
    case False
    have "seen_article_ids s \<union> article_id ` set articles = seen_article_ids s
            \<longleftrightarrow> article_id ` set articles \<subseteq> seen_article_ids s"
      by auto
    with False Inr show ?thesis
      by (simp add: fetch_articles_normal save_seen_articles_def Let_def filter_new_empty_iff)
  qed
qed

text \<open>
  The claim as stated fails: a first-run check of an empty page adds no id to the
  seen-set and still persists it.
\<close>

theorem C6_first_run_empty_listing_persists:
  "seen_article_ids (snd (fetch_articles (\<lambda>url. Inr []) bedrock_news_api ''Release''
       \<lparr>is_first_run = True, seen_article_ids = {}, registered_groups = [],
        seen_saves = [], group_saves = []\<rparr>)) = {}
   \<and> seen_saves (snd (fetch_articles (\<lambda>url. Inr []) bedrock_news_api ''Release''
       \<lparr>is_first_run = True, seen_article_ids = {}, registered_groups = [],
        seen_saves = [], group_saves = []\<rparr>)) = [{}]"
  by (simp add: fetch_articles_def save_seen_articles_def)

lemma check_feeds_seen_mono:
  "seen_article_ids s \<subseteq> seen_article_ids (snd (check_feeds cfg fetch s))"
proof -
  have a: "seen_article_ids s \<subseteq> seen_article_ids (snd (fetch_articles fetch u vt s))" for u vt s
    by (rule fetch_articles_seen_mono)
  show ?thesis
    using a [of s bedrock_beta_news_api "''Beta''"]
          a [of s bedrock_news_api "''Release''"]
          a [of "snd (fetch_articles fetch bedrock_beta_news_api ''Beta'' s)" bedrock_news_api "''Release''"]
    by (auto simp: check_feeds_def Let_def case_prod_beta)
qed

lemma check_feeds_covers_beta:
  assumes "config_get cfg ''enable_beta_monitor'' True"
    and "fetch bedrock_beta_news_api = Inr articles"
  shows "article_id ` set articles \<subseteq> seen_article_ids (snd (check_feeds cfg fetch s))"
proof -
  let ?s1 = "snd (fetch_articles fetch bedrock_beta_news_api ''Beta'' s)"
  have "article_id ` set articles \<subseteq> seen_article_ids ?s1"
    using assms(2) by (rule fetch_articles_covers)
  moreover have "seen_article_ids ?s1 \<subseteq>
      seen_article_ids (snd (fetch_articles fetch bedrock_news_api ''Release'' ?s1))"
    by (rule fetch_articles_seen_mono)
  ultimately show ?thesis
    using assms(1) by (auto simp: check_feeds_def Let_def case_prod_beta)
qed

lemma check_feeds_covers_release:
  assumes "config_get cfg ''enable_release_monitor'' True"
    and "fetch bedrock_news_api = Inr articles"
  shows "article_id ` set articles \<subseteq> seen_article_ids (snd (check_feeds cfg fetch s))"
proof -
  have "article_id ` set articles \<subseteq>
      seen_article_ids (snd (fetch_articles fetch bedrock_news_api ''Release'' s1))" for s1
    using assms(2) by (rule fetch_articles_covers)
  then show ?thesis
    using assms(1) by (auto simp: check_feeds_def Let_def case_prod_beta)
qed

lemma check_updates_seen:
  "seen_article_ids (snd (check_updates cfg fetch s)) = seen_article_ids (snd (check_feeds cfg fetch s))"
  by (auto simp: check_updates_def Let_def split: prod.splits)

lemma check_updates_nothing_new:
  assumes "\<not> is_first_run s"
    and "\<And>articles. config_get cfg ''enable_beta_monitor'' True \<Longrightarrow>
           fetch bedrock_beta_news_api = Inr articles \<Longrightarrow>
           article_id ` set articles \<subseteq> seen_article_ids s"
    and "\<And>articles. config_get cfg ''enable_release_monitor'' True \<Longrightarrow>
           fetch bedrock_news_api = Inr articles \<Longrightarrow>
           article_id ` set articles \<subseteq> seen_article_ids s"
  shows "check_updates cfg fetch s = ([], s)"
proof -
  have beta: "config_get cfg ''enable_beta_monitor'' True \<Longrightarrow>
      fetch_articles fetch bedrock_beta_news_api ''Beta'' s = ([], s)"
    using assms(1,2) by (intro fetch_articles_nothing_new) auto
  have release: "config_get cfg ''enable_release_monitor'' True \<Longrightarrow>
      fetch_articles fetch bedrock_news_api ''Release'' s = ([], s)"
    using assms(1,3) by (intro fetch_articles_nothing_new) auto
  from beta release have "check_feeds cfg fetch s = ([], s)"
    by (simp add: check_feeds_def)
  with assms(1) show ?thesis
    by (simp add: check_updates_def)
qed

text \<open>
  C7. In normal mode, a per-feed check repeated against the same upstream answer
  returns no new article and leaves the plugin as the first check left it; the same
  holds for a whole cycle repeated against the same upstream answers.
\<close>

theorem C7_second_check_finds_nothing:
  assumes "\<not> is_first_run s"
  shows "fetch_articles fetch api_url vt' (snd (fetch_articles fetch api_url vt s)) =
           ([], snd (fetch_articles fetch api_url vt s))
       \<and> check_updates cfg fetch (snd (check_updates cfg fetch s)) =
           ([], snd (check_updates cfg fetch s))"
proof
  let ?s1 = "snd (fetch_articles fetch api_url vt s)"
  have "\<not> is_first_run ?s1"
    using assms by (simp add: fetch_articles_flag)
  then show "fetch_articles fetch api_url vt' ?s1 = ([], ?s1)"
    by (rule fetch_articles_nothing_new) (rule fetch_articles_covers)
next
  let ?s1 = "snd (check_updates cfg fetch s)"
  show "check_updates cfg fetch ?s1 = ([], ?s1)"
  proof (rule check_updates_nothing_new)
    show "\<not> is_first_run ?s1" by (rule check_updates_flag)
  next
    fix articles
    assume "config_get cfg ''enable_beta_monitor'' True" "fetch bedrock_beta_news_api = Inr articles"
    then show "article_id ` set articles \<subseteq> seen_article_ids ?s1"
      by (simp only: check_updates_seen check_feeds_covers_beta)
  next
    fix articles
    assume "config_get cfg ''enable_release_monitor'' True" "fetch bedrock_news_api = Inr articles"
    then show "article_id ` set articles \<subseteq> seen_article_ids ?s1"
      by (simp only: check_updates_seen check_feeds_covers_release)
  qed
qed

text \<open>
  The page \<open>[id 5, id 4]\<close> against the seen-set \<open>{4}\<close>: the first cycle reports id 5 (from
  the beta feed, which is checked first), the second cycle reports nothing.
\<close>

theorem C7_second_check_example:
  "\<not> is_first_run \<lparr>is_first_run = False, seen_article_ids = {4}, registered_groups = [],
        seen_saves = [], group_saves = []\<rparr>
   \<and> fst (check_updates Map.empty
        (\<lambda>url. Inr [\<lparr>article_id = 5, title = ''five'', html_url = ''u5'', body = ''b5''\<rparr>,
                    \<lparr>article_id = 4, title = ''four'', html_url = ''u4'', body = ''b4''\<rparr>])
        \<lparr>is_first_run = False, seen_article_ids = {4}, registered_groups = [],
         seen_saves = [], group_saves = []\<rparr>)
      = [(\<lparr>article_id = 5, title = ''five'', html_url = ''u5'', body = ''b5''\<rparr>, ''Beta'')]
   \<and> fst (check_updates Map.empty
        (\<lambda>url. Inr [\<lparr>article_id = 5, title = ''five'', html_url = ''u5'', body = ''b5''\<rparr>,
                    \<lparr>article_id = 4, title = ''four'', html_url = ''u4'', body = ''b4''\<rparr>])
        (snd (check_updates Map.empty
          (\<lambda>url. Inr [\<lparr>article_id = 5, title = ''five'', html_url = ''u5'', body = ''b5''\<rparr>,
                      \<lparr>article_id = 4, title = ''four'', html_url = ''u4'', body = ''b4''\<rparr>])
          \<lparr>is_first_run = False, seen_article_ids = {4}, registered_groups = [],
           seen_saves = [], group_saves = []\<rparr>)))
      = []"
  using C7_second_check_finds_nothing
    [of "\<lparr>is_first_run = False, seen_article_ids = {4}, registered_groups = [],
          seen_saves = [], group_saves = []\<rparr>"
        "\<lambda>url. Inr [\<lparr>article_id = 5, title = ''five'', html_url = ''u5'', body = ''b5''\<rparr>,
                    \<lparr>article_id = 4, title = ''four'', html_url = ''u4'', body = ''b4''\<rparr>]"
        bedrock_news_api "''Release''" "''Release''" Map.empty]
  by (simp add: check_updates_def check_feeds_def config_get_def fetch_articles_def
      save_seen_articles_def)

text \<open>
  C9. A failed fetch gives that feed no new article and changes nothing; when the beta
  fetch fails and the release feed is enabled, the cycle reports what the release check
  finds from the same state, and likewise with the two feeds exchanged.
\<close>

theorem C9_fetch_failure_isolated:
  "(fetch api_url = Inl e \<longrightarrow> fetch_articles fetch api_url vt s = ([], s))
   \<and> (fetch bedrock_beta_news_api = Inl e \<and> config_get cfg ''enable_release_monitor'' True \<longrightarrow>
        fst (check_updates cfg fetch s) = fst (fetch_articles fetch bedrock_news_api ''Release'' s))
   \<and> (fetch bedrock_news_api = Inl e \<and> config_get cfg ''enable_beta_monitor'' True \<longrightarrow>
        fst (check_updates cfg fetch s) = fst (fetch_articles fetch bedrock_beta_news_api ''Beta'' s))"
  by (auto simp: check_updates_def check_feeds_def fetch_articles_failed Let_def case_prod_beta)

lemma api_urls_differ: "bedrock_beta_news_api \<noteq> bedrock_news_api"
  by (simp add: bedrock_beta_news_api_def bedrock_news_api_def)

text \<open>
  The beta fetch fails and the release page holds one unseen article: the cycle reports
  it. With the feeds exchanged, the cycle reports the beta article.
\<close>

theorem C9_fetch_failure_example:
  "(\<lambda>url. if url = bedrock_beta_news_api then Inl NetworkError
           else Inr [\<lparr>article_id = 5, title = ''five'', html_url = ''u5'', body = ''b5''\<rparr>])
      bedrock_beta_news_api = Inl NetworkError
   \<and> config_get Map.empty ''enable_release_monitor'' True
   \<and> fst (check_updates Map.empty
        (\<lambda>url. if url = bedrock_beta_news_api then Inl NetworkError
                else Inr [\<lparr>article_id = 5, title = ''five'', html_url = ''u5'', body = ''b5''\<rparr>])
        \<lparr>is_first_run = False, seen_article_ids = {4}, registered_groups = [],
         seen_saves = [], group_saves = []\<rparr>)
      = [(\<lparr>article_id = 5, title = ''five'', html_url = ''u5'', body = ''b5''\<rparr>, ''Release'')]
   \<and> (\<lambda>url. if url = bedrock_news_api then Inl HTTPStatusError
           else Inr [\<lparr>article_id = 6, title = ''six'', html_url = ''u6'', body = ''b6''\<rparr>])
      bedrock_news_api = Inl HTTPStatusError
   \<and> config_get Map.empty ''enable_beta_monitor'' True
   \<and> fst (check_updates Map.empty
        (\<lambda>url. if url = bedrock_news_api then Inl HTTPStatusError
                else Inr [\<lparr>article_id = 6, title = ''six'', html_url = ''u6'', body = ''b6''\<rparr>])
        \<lparr>is_first_run = False, seen_article_ids = {4}, registered_groups = [],
         seen_saves = [], group_saves = []\<rparr>)
      = [(\<lparr>article_id = 6, title = ''six'', html_url = ''u6'', body = ''b6''\<rparr>, ''Beta'')]"
  using C9_fetch_failure_isolated
    [of "\<lambda>url. if url = bedrock_beta_news_api then Inl NetworkError
                else Inr [\<lparr>article_id = 5, title = ''five'', html_url = ''u5'', body = ''b5''\<rparr>]"
        bedrock_beta_news_api NetworkError "''Beta''"
        "\<lparr>is_first_run = False, seen_article_ids = {4}, registered_groups = [],
          seen_saves = [], group_saves = []\<rparr>"
        Map.empty]
    C9_fetch_failure_isolated
    [of "\<lambda>url. if url = bedrock_news_api then Inl HTTPStatusError
                else Inr [\<lparr>article_id = 6, title = ''six'', html_url = ''u6'', body = ''b6''\<rparr>]"
        bedrock_news_api HTTPStatusError "''Release''"
        "\<lparr>is_first_run = False, seen_article_ids = {4}, registered_groups = [],
          seen_saves = [], group_saves = []\<rparr>"
        Map.empty]
    api_urls_differ
  by (simp add: config_get_def fetch_articles_def)

text \<open>
  C10. When the seen-ids file exists and cannot be loaded, the plugin starts with the
  first-run flag false and an empty seen-set, and a check of a page of articles with
  distinct ids then reports every article of the page, in page order.
\<close>

theorem C10_unreadable_seen_file:
  "\<not> is_first_run (plugin_init Unreadable groups_file)
   \<and> seen_article_ids (plugin_init Unreadable groups_file) = {}
   \<and> (fetch api_url = Inr articles \<and> distinct (map article_id articles) \<longrightarrow>
        fst (fetch_articles fetch api_url vt (plugin_init Unreadable groups_file)) =
          map (\<lambda>a. (a, vt)) articles)"
proof -
  let ?s = "plugin_init Unreadable groups_file"
  have flag: "\<not> is_first_run ?s" and seen: "seen_article_ids ?s = {}"
    by (simp_all add: plugin_init_def file_exists_def load_seen_articles_def)
  have "fst (fetch_articles fetch api_url vt ?s) = map (\<lambda>a. (a, vt)) articles"
    if "fetch api_url = Inr articles" "distinct (map article_id articles)"
    using flag that seen filter_new_distinct [of articles vt "[]" "{}"]
    by (simp add: fetch_articles_normal Let_def)
  with flag seen show ?thesis by blast
qed

text \<open>An unreadable seen-ids file and a page of two articles: both are reported.\<close>

theorem C10_unreadable_seen_file_example:
  "(\<lambda>url. Inr [\<lparr>article_id = 9, title = ''nine'', html_url = ''u9'', body = ''b9''\<rparr>,
               \<lparr>article_id = 7, title = ''seven'', html_url = ''u7'', body = ''b7''\<rparr>])
      bedrock_news_api
      = (Inr [\<lparr>article_id = 9, title = ''nine'', html_url = ''u9'', body = ''b9''\<rparr>,
              \<lparr>article_id = 7, title = ''seven'', html_url = ''u7'', body = ''b7''\<rparr>]
         :: fetch_error + article list)
   \<and> distinct (map article_id
        [\<lparr>article_id = 9, title = ''nine'', html_url = ''u9'', body = ''b9''\<rparr>,
         \<lparr>article_id = 7, title = ''seven'', html_url = ''u7'', body = ''b7''\<rparr>])
   \<and> fst (fetch_articles
        (\<lambda>url. Inr [\<lparr>article_id = 9, title = ''nine'', html_url = ''u9'', body = ''b9''\<rparr>,
                    \<lparr>article_id = 7, title = ''seven'', html_url = ''u7'', body = ''b7''\<rparr>])
        bedrock_news_api ''Release'' (plugin_init Unreadable Missing))
      = [(\<lparr>article_id = 9, title = ''nine'', html_url = ''u9'', body = ''b9''\<rparr>, ''Release''),
         (\<lparr>article_id = 7, title = ''seven'', html_url = ''u7'', body = ''b7''\<rparr>, ''Release'')]"
  using C10_unreadable_seen_file
    [of Missing
        "\<lambda>url. Inr [\<lparr>article_id = 9, title = ''nine'', html_url = ''u9'', body = ''b9''\<rparr>,
                    \<lparr>article_id = 7, title = ''seven'', html_url = ''u7'', body = ''b7''\<rparr>]"
        bedrock_news_api
        "[\<lparr>article_id = 9, title = ''nine'', html_url = ''u9'', body = ''b9''\<rparr>,
          \<lparr>article_id = 7, title = ''seven'', html_url = ''u7'', body = ''b7''\<rparr>]"
        "''Release''"]
  by simp

section \<open>Properties of the registry\<close>

lemma unregister_scan_find:
  "unregister_scan snap origin s =
     (case List.find (\<lambda>(k, v). v = origin) snap of
        None \<Rightarrow> (False, s)
      | Some (k, v) \<Rightarrow>
          (True, save_registered_groups (s\<lparr>registered_groups := dict_del (registered_groups s) k\<rparr>)))"
  by (induction snap origin s rule: unregister_scan.induct) auto

lemma find_first_split:
  "List.find P xs = Some x \<Longrightarrow>
   \<exists>pre post. xs = pre @ x # post \<and> (\<forall>y \<in> set pre. \<not> P y) \<and> P x"
proof (induction xs)
  case Nil
  then show ?case by simp
next
  case (Cons y ys)
  show ?case
  proof (cases "P y")
    case True
    with Cons.prems have "x = y" by simp
    with True have "y # ys = [] @ x # ys \<and> (\<forall>z \<in> set []. \<not> P z) \<and> P x" by simp
    then show ?thesis by blast
  next
    case False
    with Cons obtain pre post where "ys = pre @ x # post" "\<forall>z \<in> set pre. \<not> P z" "P x"
      by auto
    with False have "y # ys = (y # pre) @ x # post \<and> (\<forall>z \<in> set (y # pre). \<not> P z) \<and> P x"
      by simp
    then show ?thesis by blast
  qed
qed

lemma dict_del_split:
  "distinct (map fst (pre @ (k, v) # post)) \<Longrightarrow> dict_del (pre @ (k, v) # post) k = pre @ post"
  by (induction pre) auto

lemma dict_set_keys: "fst ` set (dict_set d k v) = insert k (fst ` set d)"
  by (induction d k v rule: dict_set.induct) auto

lemma dict_set_distinct:
  "distinct (map fst d) \<Longrightarrow> distinct (map fst (dict_set d k v))"
  by (induction d k v rule: dict_set.induct) (auto simp: dict_set_keys)

lemma dict_set_member: "(k, v) \<in> set (dict_set d k v)"
  by (induction d k v rule: dict_set.induct) auto

lemma register_then_delete:
  assumes "distinct (map fst d)"
    and "\<forall>(k, v) \<in> set d. v = origin \<longrightarrow> k = key"
  shows "List.find (\<lambda>(k, v). v = origin) (dict_set d key origin) = Some (key, origin)
       \<and> dict_del (dict_set d key origin) key = filter (\<lambda>(k, v). k \<noteq> key) d"
  using assms
proof (induction d)
  case Nil
  then show ?case by simp
next
  case (Cons e rest)
  obtain k' v' where e: "e = (k', v')" by (cases e)
  show ?case
  proof (cases "k' = key")
    case True
    with Cons.prems e have "key \<notin> fst ` set rest" by auto
    then have "filter (\<lambda>(k, v). k \<noteq> key) rest = rest"
      by (intro filter_True) force
    with True e show ?thesis by simp
  next
    case False
    with Cons.prems e have "v' \<noteq> origin" by auto
    with False e Cons show ?thesis by simp
  qed
qed

lemma mcbe_register_groups:
  "registered_groups (snd (mcbe_register ev s)) =
     dict_set (registered_groups s) (register_key ev) (unified_msg_origin ev)"
  by (simp add: mcbe_register_def save_registered_groups_def Let_def)

lemma mcbe_unregister_found:
  assumes "List.find (\<lambda>(k, v). v = unified_msg_origin ev) (registered_groups s) = Some (k, v)"
  shows "fst (mcbe_unregister ev s) = UnregisterOk"
    and "registered_groups (snd (mcbe_unregister ev s)) = dict_del (registered_groups s) k"
  using assms
  by (simp_all add: mcbe_unregister_def unregister_scan_find save_registered_groups_def)

lemma mcbe_unregister_unknown:
  assumes "\<forall>(k, v) \<in> set (registered_groups s). v \<noteq> unified_msg_origin ev"
  shows "mcbe_unregister ev s = (NotRegistered, s)"
proof -
  have "List.find (\<lambda>(k, v). v = unified_msg_origin ev) (registered_groups s) = None"
    using assms by (auto simp: find_None_iff)
  then show ?thesis
    by (simp add: mcbe_unregister_def unregister_scan_find)
qed

text \<open>
  C8, as amended. On a registry with unique keys, registering the caller and then
  unregistering the same address answers with the confirmation and removes exactly one
  entry, the first one in the registry whose address is the caller's. That entry is
  the one just registered whenever no other key of the prior registry holds the
  caller's address, and the registry is then the prior registry without the caller's
  key. Unregistering an address that no entry holds answers "not registered" and
  leaves the plugin, registry and saves included, as it was.
\<close>

theorem C8_register_then_unregister:
  assumes "distinct (map fst (registered_groups s))"
  shows "fst (mcbe_unregister ev (snd (mcbe_register ev s))) = UnregisterOk
       \<and> (\<exists>pre k post.
             registered_groups (snd (mcbe_register ev s)) = pre @ (k, unified_msg_origin ev) # post
           \<and> (\<forall>(k', v') \<in> set pre. v' \<noteq> unified_msg_origin ev)
           \<and> registered_groups (snd (mcbe_unregister ev (snd (mcbe_register ev s)))) = pre @ post)
       \<and> ((\<forall>(k', v') \<in> set (registered_groups s). v' = unified_msg_origin ev \<longrightarrow> k' = register_key ev)
            \<longrightarrow> registered_groups (snd (mcbe_unregister ev (snd (mcbe_register ev s)))) =
                  filter (\<lambda>(k', v'). k' \<noteq> register_key ev) (registered_groups s))
       \<and> ((\<forall>(k', v') \<in> set (registered_groups s). v' \<noteq> unified_msg_origin ev)
            \<longrightarrow> mcbe_unregister ev s = (NotRegistered, s))"
proof -
  let ?origin = "unified_msg_origin ev"
  let ?s1 = "snd (mcbe_register ev s)"
  let ?d1 = "registered_groups ?s1"
  let ?P = "\<lambda>(k, v). v = ?origin"
  have d1: "?d1 = dict_set (registered_groups s) (register_key ev) ?origin"
    by (rule mcbe_register_groups)
  have dist1: "distinct (map fst ?d1)"
    using assms by (simp add: d1 dict_set_distinct)
  have "(register_key ev, ?origin) \<in> set ?d1"
    by (simp add: d1 dict_set_member)
  then have "List.find ?P ?d1 \<noteq> None"
    by (auto simp: find_None_iff)
  then obtain k v where found: "List.find ?P ?d1 = Some (k, v)"
    by auto
  from find_first_split [OF found]
  obtain pre post where split: "?d1 = pre @ (k, v) # post"
    and before: "\<forall>y \<in> set pre. \<not> ?P y" and v: "v = ?origin"
    by auto
  have ok: "fst (mcbe_unregister ev ?s1) = UnregisterOk"
    using found by (rule mcbe_unregister_found)
  have "registered_groups (snd (mcbe_unregister ev ?s1)) = dict_del ?d1 k"
    using found by (rule mcbe_unregister_found)
  also have "\<dots> = pre @ post"
    using dist1 unfolding split by (rule dict_del_split)
  finally have removed: "registered_groups (snd (mcbe_unregister ev ?s1)) = pre @ post" .
  have first: "\<exists>pre k post. ?d1 = pre @ (k, ?origin) # post
      \<and> (\<forall>(k', v') \<in> set pre. v' \<noteq> ?origin)
      \<and> registered_groups (snd (mcbe_unregister ev ?s1)) = pre @ post"
    using split before v removed by blast
  have own: "registered_groups (snd (mcbe_unregister ev ?s1)) =
      filter (\<lambda>(k', v'). k' \<noteq> register_key ev) (registered_groups s)"
    if only: "\<forall>(k', v') \<in> set (registered_groups s). v' = ?origin \<longrightarrow> k' = register_key ev"
  proof -
    from register_then_delete [OF assms only]
    have f: "List.find ?P ?d1 = Some (register_key ev, ?origin)"
      and del: "dict_del ?d1 (register_key ev) =
                  filter (\<lambda>(k', v'). k' \<noteq> register_key ev) (registered_groups s)"
      by (simp_all add: d1)
    from mcbe_unregister_found(2) [OF f] del show ?thesis by simp
  qed
  from ok first own mcbe_unregister_unknown [of s ev] show ?thesis by blast
qed

text \<open>
  A registry that holds another chat; the caller registers under the key \<open>42\<close> taken
  from its origin and unregisters again: the registry is as before.
\<close>

theorem C8_register_then_unregister_example:
  "distinct (map fst (registered_groups
      \<lparr>is_first_run = False, seen_article_ids = {}, registered_groups = [(''9'', ''qq:group:9'')],
       seen_saves = [], group_saves = []\<rparr>))
   \<and> fst (mcbe_unregister \<lparr>unified_msg_origin = ''qq:group:42'', group_id = None\<rparr>
        (snd (mcbe_register \<lparr>unified_msg_origin = ''qq:group:42'', group_id = None\<rparr>
          \<lparr>is_first_run = False, seen_article_ids = {}, registered_groups = [(''9'', ''qq:group:9'')],
           seen_saves = [], group_saves = []\<rparr>))) = UnregisterOk
   \<and> registered_groups (snd (mcbe_register \<lparr>unified_msg_origin = ''qq:group:42'', group_id = None\<rparr>
          \<lparr>is_first_run = False, seen_article_ids = {}, registered_groups = [(''9'', ''qq:group:9'')],
           seen_saves = [], group_saves = []\<rparr>))
      = [(''9'', ''qq:group:9''), (''42'', ''qq:group:42'')]
   \<and> registered_groups (snd (mcbe_unregister \<lparr>unified_msg_origin = ''qq:group:42'', group_id = None\<rparr>
        (snd (mcbe_register \<lparr>unified_msg_origin = ''qq:group:42'', group_id = None\<rparr>
          \<lparr>is_first_run = False, seen_article_ids = {}, registered_groups = [(''9'', ''qq:group:9'')],
           seen_saves = [], group_saves = []\<rparr>))))
      = [(''9'', ''qq:group:9'')]
   \<and> mcbe_unregister \<lparr>unified_msg_origin = ''qq:group:42'', group_id = None\<rparr>
        \<lparr>is_first_run = False, seen_article_ids = {}, registered_groups = [(''9'', ''qq:group:9'')],
         seen_saves = [], group_saves = []\<rparr>
      = (NotRegistered,
         \<lparr>is_first_run = False, seen_article_ids = {}, registered_groups = [(''9'', ''qq:group:9'')],
          seen_saves = [], group_saves = []\<rparr>)"
  using C8_register_then_unregister
    [of "\<lparr>is_first_run = False, seen_article_ids = {}, registered_groups = [(''9'', ''qq:group:9'')],
          seen_saves = [], group_saves = []\<rparr>"
        "\<lparr>unified_msg_origin = ''qq:group:42'', group_id = None\<rparr>"]
  by (simp add: mcbe_register_def mcbe_unregister_def register_key_def
      save_registered_groups_def Let_def)

text \<open>
  The claim as stated fails: the registry file holds the caller's address under the
  key \<open>12345\<close>, the caller registers (its key is its origin, which has no \<open>group\<close>
  in it) and unregisters. The entry removed is the older one; the entry just
  registered is still there.
\<close>

theorem C8_unregister_removes_other_entry:
  "fst (mcbe_register \<lparr>unified_msg_origin = ''aiocqhttp:GroupMessage:12345'', group_id = None\<rparr>
        \<lparr>is_first_run = False, seen_article_ids = {},
         registered_groups = [(''12345'', ''aiocqhttp:GroupMessage:12345'')],
         seen_saves = [], group_saves = []\<rparr>)
      = RegisterOk ''aiocqhttp:GroupMessage:12345''
   \<and> registered_groups (snd (mcbe_unregister
        \<lparr>unified_msg_origin = ''aiocqhttp:GroupMessage:12345'', group_id = None\<rparr>
        (snd (mcbe_register \<lparr>unified_msg_origin = ''aiocqhttp:GroupMessage:12345'', group_id = None\<rparr>
          \<lparr>is_first_run = False, seen_article_ids = {},
           registered_groups = [(''12345'', ''aiocqhttp:GroupMessage:12345'')],
           seen_saves = [], group_saves = []\<rparr>))))
      = [(''aiocqhttp:GroupMessage:12345'', ''aiocqhttp:GroupMessage:12345'')]"
  by (simp add: mcbe_register_def mcbe_unregister_def register_key_def
      save_registered_groups_def Let_def)

section \<open>Properties of the image extraction\<close>

lemma process_element_offer:
  "process_element accepts element st =
     (case candidate_src element of None \<Rightarrow> st | Some src \<Rightarrow> offer accepts src st)"
  by (auto simp: process_element_def candidate_src_def offer_def Let_def
      split: node.splits option.splits)

lemma fold_process_element:
  "fold (process_element accepts) elements st =
     fold (offer accepts) (List.map_filter candidate_src elements) st"
  by (induction elements arbitrary: st)
     (auto simp: map_filter_simps process_element_offer split: option.splits)

lemma extract_as_offers:
  "extract_content_with_images accepts soup =
     components (fold (offer accepts) (image_sources soup)
       \<lparr>components = [], image_count = 0, processed_imgs = {}\<rparr>)"
  by (simp add: extract_content_with_images_def image_sources_def fold_process_element)

lemma image_urls_append: "image_urls (xs @ ys) = image_urls xs @ image_urls ys"
  by (simp add: image_urls_def)

lemma image_urls_pair: "image_urls [Image url, Plain s] = [url]"
  by (simp add: image_urls_def)

lemma resolve_src_no_slash: "\<not> startswith (resolve_src src) ''/''"
  by (cases src) (auto simp: resolve_src_def feedback_base_url_def)

lemma offer_cases:
  "offer accepts src st =
     (if src \<noteq> [] \<and> src \<notin> processed_imgs st \<and> image_count st < max_images
         \<and> accepts (resolve_src src)
      then st\<lparr>components := components st @ [Image (resolve_src src), Plain ''\<newline>''],
              image_count := image_count st + 1,
              processed_imgs := insert (resolve_src src) (processed_imgs st)\<rparr>
      else st)"
  by (simp add: offer_def append_image_def image_fromURL_def Let_def)

lemma offer_ok: "extraction_ok st \<Longrightarrow> extraction_ok (offer accepts src st)"
  by (auto simp: extraction_ok_def offer_cases image_urls_append image_urls_pair
      resolve_src_no_slash)







lemma initial_extraction_ok:
  "extraction_ok \<lparr>components = [], image_count = 0, processed_imgs = {}\<rparr>"
  by (simp add: extraction_ok_def image_urls_def)


lemma set_first_occurrences: "set (first_occurrences xs) = set xs"
  by (induction xs rule: first_occurrences.induct) auto

lemma distinct_first_occurrences: "distinct (first_occurrences xs)"
  by (induction xs rule: first_occurrences.induct) (auto simp: set_first_occurrences)










lemma fold_offer_distinct:
  assumes "extraction_ok st"
    and "distinct (image_urls (components st))"
    and "list_all (\<lambda>src. \<not> startswith src ''/'') srcs"
  shows "distinct (image_urls (components (fold (offer accepts) srcs st)))"
  using assms
proof (induction srcs arbitrary: st)
  case Nil
  then show ?case by simp
next
  case (Cons src rest)
  from Cons.prems(3) have same: "resolve_src src = src"
    by (simp add: resolve_src_def)
  have "distinct (image_urls (components (offer accepts src st)))"
    using Cons.prems(1,2)
    by (auto simp: offer_cases same extraction_ok_def image_urls_append image_urls_pair)
  moreover have "extraction_ok (offer accepts src st)"
    using Cons.prems(1) by (rule offer_ok)
  ultimately show ?case
    using Cons.IH [of "offer accepts src st"] Cons.prems(3) by simp
qed

text \<open>
  What the loop does achieve: when no source of the body starts with a slash, no URL is
  emitted twice.
\<close>

lemma absolute_sources_deduplicated:
  assumes "list_all (\<lambda>src. \<not> startswith src ''/'') (image_sources soup)"
  shows "distinct (image_urls (extract_content_with_images accepts soup))"
  unfolding extract_as_offers
  using initial_extraction_ok _ assms
  by (rule fold_offer_distinct) (simp add: image_urls_def)

text \<open>
  C4. The claim fails on the code for a source that starts with a slash: the loop
  tests the source as written against \<open>processed_imgs\<close> but records the rewritten URL,
  so the test never finds it. A figure around one root-relative image gives the same
  image twice (once for the figure, once for the \<^verbatim>\<open>img\<close> inside it), and so does a
  root-relative image that occurs twice.
\<close>

theorem C4_root_relative_image_emitted_twice:
  "extract_content_with_images (\<lambda>url. True)
     (Tag ''[document]'' Map.empty
        [Tag ''figure'' Map.empty [Tag ''img'' [''src'' \<mapsto> ''/hc/a.png''] []]])
     = [Image ''https://feedback.minecraft.net/hc/a.png'', Plain ''\<newline>'',
        Image ''https://feedback.minecraft.net/hc/a.png'', Plain ''\<newline>'']
   \<and> extract_content_with_images (\<lambda>url. True)
     (Tag ''[document]'' Map.empty
        [Tag ''img'' [''src'' \<mapsto> ''/hc/a.png''] [],
         Tag ''p'' Map.empty [NavigableString ''text''],
         Tag ''img'' [''src'' \<mapsto> ''/hc/a.png''] []])
     = [Image ''https://feedback.minecraft.net/hc/a.png'', Plain ''\<newline>'',
        Image ''https://feedback.minecraft.net/hc/a.png'', Plain ''\<newline>'']"
  by (simp add: find_all_def find_first_def is_named_def get_attr_def resolve_src_def
      feedback_base_url_def extract_content_with_images_def process_element_def
      append_image_def image_fromURL_def max_images_def Let_def)

end
